theory Spec2Isabelle
  imports Main "HOL-Library.Word"
begin

section \<open>The file source of loggie: the Job of \<^verbatim>\<open>pkg/source/file/job.go\<close>\<close>

text \<open>
  A shallow embedding of \<^verbatim>\<open>job.go\<close>. Go strings and byte slices are byte
  sequences, here \<open>string\<close> (a list of 8-bit characters). The fixed-width integers of
  Go (\<^verbatim>\<open>int64\<close>, \<^verbatim>\<open>uint64\<close>, \<^verbatim>\<open>uint32\<close>, and \<^verbatim>\<open>int\<close> on a 64-bit
  platform) are machine words: \<open>+\<close> and \<open>-\<close> wrap, \<open>sint\<close> reads the signed value
  and \<open>unat\<close> the unsigned one.
\<close>

unbundle bit_operations_syntax

type_synonym int64 = "64 word"
type_synonym uint64 = "64 word"
type_synonym uint32 = "32 word"
type_synonym goint = "64 word"

subsection \<open>Decimal formatting (\<^verbatim>\<open>strconv\<close>)\<close>

definition digit :: "nat \<Rightarrow> char" where
  "digit d = char_of (48 + d)"

text \<open>
  \<^verbatim>\<open>strconv.AppendUint(buf[:0], n, 10)\<close>: the decimal digits of \<open>n\<close>, most significant
  first, no leading zero, \<open>0\<close> as the one digit \<open>0\<close>.
\<close>

fun formatUint :: "nat \<Rightarrow> string" where
  "formatUint n = (if n < 10 then [digit n] else formatUint (n div 10) @ [digit (n mod 10)])"

declare formatUint.simps [simp del]

definition AppendUint :: "uint64 \<Rightarrow> string" where
  "AppendUint n = formatUint (unat n)"

text \<open>
  \<^verbatim>\<open>strconv.FormatInt(i, 10)\<close>: a minus sign and the digits of the magnitude when
  \<open>i\<close> is negative, the digits of \<open>i\<close> otherwise.
\<close>

definition FormatInt :: "int64 \<Rightarrow> string" where
  "FormatInt i = (if sint i < 0 then CHR ''-'' # formatUint (nat (- sint i))
                  else formatUint (nat (sint i)))"

subsection \<open>File identity\<close>

text \<open>
  What \<^verbatim>\<open>os.FileInfo\<close> carries on a Unix system: the name, size and mode of the entry,
  and behind \<^verbatim>\<open>Sys()\<close> the \<^verbatim>\<open>syscall.Stat_t\<close> with the inode number \<^verbatim>\<open>Ino\<close> and the
  device \<^verbatim>\<open>Dev\<close>.
\<close>

record FileInfo =
  Name :: string
  Size :: int64
  Mode :: uint32
  Ino :: uint64
  Dev :: uint64

definition JobUid :: "FileInfo \<Rightarrow> string" where
  "JobUid fileInfo =
     (let inode = Ino fileInfo;
          device = Dev fileInfo;
          current = AppendUint inode;
          current = current @ [CHR ''-''];
          current = current @ AppendUint device
      in current)"

definition WatchJobId :: "string \<Rightarrow> string \<Rightarrow> string \<Rightarrow> string" where
  "WatchJobId pipelineName sourceName jobUid =
     pipelineName @ '':'' @ sourceName @ '':'' @ jobUid"

subsection \<open>Time, status, errors, the operating system\<close>

text \<open>
  \<^verbatim>\<open>time.Time\<close> as the number of nanoseconds since the zero instant; \<^verbatim>\<open>IsZero\<close>
  holds of the zero instant alone.
\<close>

type_synonym Time = int

definition IsZero :: "Time \<Rightarrow> bool" where
  "IsZero t \<longleftrightarrow> t = 0"

text \<open>\<^verbatim>\<open>type JobStatus int\<close> and its four constants; a fresh Job has the zero status.\<close>

type_synonym JobStatus = goint

definition JobActive :: JobStatus where "JobActive = 1"
definition JobDelete :: JobStatus where "JobDelete = 2"
definition JobStop :: JobStatus where "JobStop = 3"
definition JobStopImmediately :: JobStatus where "JobStopImmediately = 999"

text \<open>An open \<^verbatim>\<open>*os.File\<close> is a descriptor number; the nil pointer is \<open>None\<close>.\<close>

type_synonym File = nat

datatype os_error = EPERM | ENOENT | EIO | EACCES | EINVAL | EOF

definition IsPermission :: "os_error \<Rightarrow> bool" where
  "IsPermission err \<longleftrightarrow> err = EACCES \<or> err = EPERM"

text \<open>
  The values of Go's \<^verbatim>\<open>error\<close> that the Job returns: an error of a system or library
  call handed on as it is, and the three errors built with \<^verbatim>\<open>fmt.Errorf\<close>, each with
  its arguments.
\<close>

datatype error =
    OsError os_error
  | UidChanged string string string
  | FileSizeSmaller int64 goint
  | ReadSizeSmaller goint goint

datatype panic =
    NilInterfaceConversion
  | MakeSliceLenOutOfRange
  | BuilderGrowNegativeCount

text \<open>
  What one call of a Job method finds outside the program: the outcome of each system
  call it may make, the outcome of \<^verbatim>\<open>util.LineCountTo\<close> (a helper of another package
  of the repository, which scans the file and counts its lines up to an offset), and the
  reading of the clock. A method takes these as an argument, so a theorem about it holds
  whatever the file system does. \<open>file_Read f n\<close> is one \<^verbatim>\<open>Read\<close> into a buffer of
  \<open>n\<close> bytes: the bytes read and the error.
\<close>

record Env =
  os_Open :: "string \<Rightarrow> os_error + File"
  os_Stat :: "string \<Rightarrow> os_error + FileInfo"
  file_Stat :: "File \<Rightarrow> os_error + FileInfo"
  file_Seek :: "File \<Rightarrow> int64 \<Rightarrow> os_error option"
  file_Read :: "File \<Rightarrow> nat \<Rightarrow> string \<times> os_error option"
  file_Close :: "File \<Rightarrow> os_error option"
  LineCountTo :: "int64 \<Rightarrow> string \<Rightarrow> os_error + goint"
  Now :: Time

text \<open>
  The calls a method makes, in order: the trace it returns beside its result. A handle is
  released by \<open>Close\<close> and by nothing else.
\<close>

datatype effect =
    Open string
  | Stat string
  | FStat File
  | Seek File int64
  | ReadN File nat
  | Close "File option"
  | CountLines int64 string
  | LogError string "string list"
  | LogInfo string "string list"
  | Send uint32

subsection \<open>The task and the record of a line\<close>

text \<open>
  Modelled from the spec: the types \<^verbatim>\<open>WatchTask\<close>, its configuration, \<^verbatim>\<open>State\<close> and
  the pooled event are declared in other files of the package. The task supplies the
  pipeline and source names, an opaque epoch and the configured
  \<^verbatim>\<open>FirstNBytesForIdentifier\<close>; its event pool, product function and active channel
  appear as what the methods hand to them. The fields of \<open>State\<close> are those of the
  composite literal in \<^verbatim>\<open>ProductEvent\<close>; the three whose names are also names of the
  Job carry the suffix \<open>_st\<close>.
\<close>

record Config =
  FirstNBytesForIdentifier :: goint

record WatchTask =
  pipelineName :: string
  sourceName :: string
  epoch :: nat
  config :: Config

record State =
  Epoch :: nat
  PipelineName :: string
  SourceName :: string
  Offset :: int64
  NextOffset_st :: int64
  LineNumber :: int64
  Filename :: string
  CollectTime :: Time
  ContentBytes :: int64
  JobUid_st :: string
  JobIndex :: uint32
  watchUid_st :: string
  EventUid :: string

record Event =
  header_SystemStateKey :: State
  body :: string

subsection \<open>The Job\<close>

text \<open>
  The two \<^verbatim>\<open>atomic.Value\<close> cells hold \<open>None\<close> until the first \<^verbatim>\<open>Store\<close>. The task is
  a field of the record: a Job is created with its task and keeps it. \<open>watchUidLen\<close> is
  the \<^verbatim>\<open>len\<close> of a string, a number that always fits Go's \<^verbatim>\<open>int\<close>.
\<close>

record Job =
  uid :: string
  watchUid :: string
  watchUidLen :: int
  index :: uint32
  filename :: string
  aFileName :: "string option"
  "file" :: "File option"
  status :: JobStatus
  aStatus :: "JobStatus option"
  endOffset :: int64
  nextOffset :: int64
  currentLineNumber :: int64
  currentLines :: int64
  eofCount :: goint
  lastActiveTime :: Time
  deleteTime :: Time
  renameTime :: Time
  "identifier" :: string
  task :: WatchTask

definition Uid :: "Job \<Rightarrow> string" where
  "Uid j = uid j"

definition Index :: "Job \<Rightarrow> uint32" where
  "Index j = index j"

definition WatchUid :: "Job \<Rightarrow> string \<times> Job" where
  "WatchUid j =
     (if watchUid j \<noteq> [] then (watchUid j, j)
      else let wj = WatchJobId (pipelineName (task j)) (sourceName (task j)) (Uid j);
               j = j\<lparr>watchUid := wj\<rparr>;
               j = j\<lparr>watchUidLen := int (length (watchUid j))\<rparr>
           in (wj, j))"

definition ChangeStatusTo :: "JobStatus \<Rightarrow> Job \<Rightarrow> Job" where
  "ChangeStatusTo st j = j\<lparr>status := st, aStatus := Some st\<rparr>"

definition Delete :: "Env \<Rightarrow> Job \<Rightarrow> Job" where
  "Delete env j = (ChangeStatusTo JobDelete j)\<lparr>deleteTime := Now env\<rparr>"

definition IsDelete :: "Job \<Rightarrow> bool" where
  "IsDelete j \<longleftrightarrow> status j = JobDelete \<or> \<not> IsZero (deleteTime j)"

definition Stop :: "Job \<Rightarrow> Job" where
  "Stop j = ChangeStatusTo JobStop j"

definition Release :: "Env \<Rightarrow> Job \<Rightarrow> Job \<times> effect list" where
  "Release env j =
     (case file j of
        None \<Rightarrow> (j, [])
      | Some f \<Rightarrow>
          (j\<lparr>file := None\<rparr>,
           [Close (Some f)]
           @ (case file_Close env f of
                None \<Rightarrow> []
              | Some err \<Rightarrow> [LogError ''release job(fileName: %s) error: %s'' [filename j]])
           @ [LogInfo ''job(fileName: %s) has been released'' [filename j]]))"

text \<open>
  \<^verbatim>\<open>Sync\<close> asserts the type of what each cell holds; on a cell that was never stored
  to, \<^verbatim>\<open>Load\<close> gives nil and the assertion panics.
\<close>

definition Sync :: "Job \<Rightarrow> panic + Job" where
  "Sync j =
     (case aStatus j of
        None \<Rightarrow> Inl NilInterfaceConversion
      | Some st \<Rightarrow>
          (case aFileName j of
             None \<Rightarrow> Inl NilInterfaceConversion
           | Some fn \<Rightarrow> Inr (j\<lparr>status := st, filename := fn\<rparr>)))"

definition RenameTo :: "Env \<Rightarrow> string \<Rightarrow> Job \<Rightarrow> Job" where
  "RenameTo env newFilename j =
     j\<lparr>filename := newFilename, aFileName := Some newFilename, renameTime := Now env\<rparr>"

definition IsRename :: "Job \<Rightarrow> bool" where
  "IsRename j \<longleftrightarrow> \<not> IsZero (renameTime j)"

text \<open>The last four statements of \<^verbatim>\<open>Active\<close>, reached on every path that does not return early.\<close>

definition Active_tail :: "Env \<Rightarrow> Job \<Rightarrow> Job" where
  "Active_tail env j =
     j\<lparr>status := JobActive, aStatus := Some JobActive, eofCount := 0, lastActiveTime := Now env\<rparr>"

definition Active :: "Env \<Rightarrow> Job \<Rightarrow> error option \<times> Job \<times> effect list" where
  "Active env j =
     (case file j of
        Some held \<Rightarrow> (None, Active_tail env j, [])
      | None \<Rightarrow>
          (case os_Open env (filename j) of
             Inl err \<Rightarrow>
               (Some (OsError err), j,
                Open (filename j)
                # (if IsPermission err
                   then [LogError ''no permission for filename: %s'' [filename j]] else []))
           | Inr f \<Rightarrow>
               (let j = j\<lparr>file := Some f\<rparr>;
                    tr = [Open (filename j), FStat f]
                in case file_Stat env f of
                     Inl err \<Rightarrow> (Some (OsError err), j, tr)
                   | Inr fileInfo \<Rightarrow>
                       (let newUid = JobUid fileInfo
                        in if Uid j \<noteq> newUid
                           then (Some (UidChanged (filename j) (Uid j) newUid), j, tr)
                           else if nextOffset j \<noteq> 0
                           then (let tr = tr @ [Seek f (nextOffset j)]
                                 in case file_Seek env f (nextOffset j) of
                                      Some err \<Rightarrow> (Some (OsError err), j, tr)
                                    | None \<Rightarrow>
                                        if currentLineNumber j = 0
                                        then (let tr = tr @ [CountLines (nextOffset j) (filename j)]
                                              in case LineCountTo env (nextOffset j) (filename j) of
                                                   Inl err \<Rightarrow> (Some (OsError err), j, tr)
                                                 | Inr lineNumber \<Rightarrow>
                                                     (None,
                                                      Active_tail env (j\<lparr>currentLineNumber := lineNumber\<rparr>),
                                                      tr))
                                        else (None, Active_tail env j, tr))
                           else (None, Active_tail env j, tr)))))"

definition NextOffset :: "int64 \<Rightarrow> Job \<Rightarrow> Job" where
  "NextOffset offset j = (if 0 < sint offset then j\<lparr>nextOffset := offset\<rparr> else j)"

subsection \<open>The fingerprint: \<^verbatim>\<open>crypto/md5\<close> and \<^verbatim>\<open>%x\<close>\<close>

text \<open>
  \<^verbatim>\<open>md5.Sum\<close> of the Go standard library, after RFC 1321: the message is padded with
  the byte \<open>0x80\<close>, zero bytes up to 56 modulo 64 and its length in bits as eight
  little-endian bytes; each block of 64 bytes, read as sixteen little-endian words, runs
  through 64 steps on a state of four words; the result is the sixteen bytes of the final
  state.
\<close>

definition md5_shift :: "nat list" where
  "md5_shift =
    [7, 12, 17, 22, 7, 12, 17, 22, 7, 12, 17, 22, 7, 12, 17, 22,
     5, 9, 14, 20, 5, 9, 14, 20, 5, 9, 14, 20, 5, 9, 14, 20,
     4, 11, 16, 23, 4, 11, 16, 23, 4, 11, 16, 23, 4, 11, 16, 23,
     6, 10, 15, 21, 6, 10, 15, 21, 6, 10, 15, 21, 6, 10, 15, 21]"

definition md5_table :: "uint32 list" where
  "md5_table =
    [0xd76aa478, 0xe8c7b756, 0x242070db, 0xc1bdceee,
     0xf57c0faf, 0x4787c62a, 0xa8304613, 0xfd469501,
     0x698098d8, 0x8b44f7af, 0xffff5bb1, 0x895cd7be,
     0x6b901122, 0xfd987193, 0xa679438e, 0x49b40821,
     0xf61e2562, 0xc040b340, 0x265e5a51, 0xe9b6c7aa,
     0xd62f105d, 0x02441453, 0xd8a1e681, 0xe7d3fbc8,
     0x21e1cde6, 0xc33707d6, 0xf4d50d87, 0x455a14ed,
     0xa9e3e905, 0xfcefa3f8, 0x676f02d9, 0x8d2a4c8a,
     0xfffa3942, 0x8771f681, 0x6d9d6122, 0xfde5380c,
     0xa4beea44, 0x4bdecfa9, 0xf6bb4b60, 0xbebfbc70,
     0x289b7ec6, 0xeaa127fa, 0xd4ef3085, 0x04881d05,
     0xd9d4d039, 0xe6db99e5, 0x1fa27cf8, 0xc4ac5665,
     0xf4292244, 0x432aff97, 0xab9423a7, 0xfc93a039,
     0x655b59c3, 0x8f0ccc92, 0xffeff47d, 0x85845dd1,
     0x6fa87e4f, 0xfe2ce6e0, 0xa3014314, 0x4e0811a1,
     0xf7537e82, 0xbd3af235, 0x2ad7d2bb, 0xeb86d391]"

fun le_bytes :: "nat \<Rightarrow> nat \<Rightarrow> string" where
  "le_bytes 0 v = []"
| "le_bytes (Suc k) v = char_of v # le_bytes k (v div 256)"

fun le_word :: "string \<Rightarrow> uint32" where
  "le_word [] = 0"
| "le_word (c # cs) = of_char c + 256 * le_word cs"

fun chunks :: "nat \<Rightarrow> 'a list \<Rightarrow> 'a list list" where
  "chunks 0 xs = []"
| "chunks (Suc n) xs = take 4 xs # chunks n (drop 4 xs)"

definition md5_pad :: "string \<Rightarrow> string" where
  "md5_pad msg =
     msg @ [char_of (128 :: nat)]
     @ replicate ((119 - length msg mod 64) mod 64) (char_of (0 :: nat))
     @ le_bytes 8 ((8 * length msg) mod 2 ^ 64)"

definition md5_round :: "uint32 list \<Rightarrow> uint32 \<times> uint32 \<times> uint32 \<times> uint32 \<Rightarrow> nat
    \<Rightarrow> uint32 \<times> uint32 \<times> uint32 \<times> uint32" where
  "md5_round m st i =
     (case st of (a, b, c, d) \<Rightarrow>
        let (f, g) =
              (if i < 16 then ((b AND c) OR (NOT b AND d), i)
               else if i < 32 then ((d AND b) OR (NOT d AND c), (5 * i + 1) mod 16)
               else if i < 48 then (b XOR c XOR d, (3 * i + 5) mod 16)
               else (c XOR (b OR NOT d), (7 * i) mod 16));
            f = f + a + md5_table ! i + m ! g
        in (d, b + word_rotl (md5_shift ! i) f, b, c))"

definition md5_block :: "uint32 \<times> uint32 \<times> uint32 \<times> uint32 \<Rightarrow> string
    \<Rightarrow> uint32 \<times> uint32 \<times> uint32 \<times> uint32" where
  "md5_block st blk =
     (case st of (a0, b0, c0, d0) \<Rightarrow>
        case foldl (md5_round (map le_word (chunks 16 blk))) st [0..<64] of
          (a, b, c, d) \<Rightarrow> (a0 + a, b0 + b, c0 + c, d0 + d))"

fun md5_blocks :: "nat \<Rightarrow> uint32 \<times> uint32 \<times> uint32 \<times> uint32 \<Rightarrow> string
    \<Rightarrow> uint32 \<times> uint32 \<times> uint32 \<times> uint32" where
  "md5_blocks 0 st p = st"
| "md5_blocks (Suc n) st p = md5_blocks n (md5_block st (take 64 p)) (drop 64 p)"

definition md5_Sum :: "string \<Rightarrow> string" where
  "md5_Sum msg =
     (let p = md5_pad msg
      in case md5_blocks (length p div 64) (0x67452301, 0xefcdab89, 0x98badcfe, 0x10325476) p of
           (a, b, c, d) \<Rightarrow>
             le_bytes 4 (unat a) @ le_bytes 4 (unat b) @ le_bytes 4 (unat c) @ le_bytes 4 (unat d))"

text \<open>\<^verbatim>\<open>fmt.Sprintf("%x", bytes)\<close>: two lower-case hexadecimal digits for every byte.\<close>

definition hexdigit :: "nat \<Rightarrow> char" where
  "hexdigit d = (if d < 10 then char_of (48 + d) else char_of (87 + d))"

definition Sprintf_x :: "string \<Rightarrow> string" where
  "Sprintf_x bs = concat (map (\<lambda>c. [hexdigit (of_char c div 16), hexdigit (of_char c mod 16)]) bs)"

text \<open>
  \<^verbatim>\<open>make([]byte, n)\<close> and \<^verbatim>\<open>copy(dst, src)\<close>; \<open>read_into\<close> is \<^verbatim>\<open>file.Read(buf)\<close>:
  at most \<open>length buf\<close> bytes arrive, at the front of the buffer, and the count of them
  is returned beside the error.
\<close>

definition make_bytes :: "nat \<Rightarrow> string" where
  "make_bytes n = replicate n (char_of (0 :: nat))"

definition copy :: "string \<Rightarrow> string \<Rightarrow> string" where
  "copy dst src = take (length dst) src @ drop (length src) dst"

definition read_into :: "Env \<Rightarrow> File \<Rightarrow> string \<Rightarrow> string \<times> nat \<times> os_error option" where
  "read_into env f buf =
     (case file_Read env f (length buf) of
        (got, err) \<Rightarrow> (copy buf got, length (take (length buf) got), err))"

text \<open>
  The deferred \<^verbatim>\<open>file.Close()\<close> of \<^verbatim>\<open>GenerateIdentifier\<close> is registered before the
  error of \<^verbatim>\<open>os.Open\<close> is looked at; it runs at every return after that point, on a
  nil file when the open failed. \<^verbatim>\<open>make\<close> panics on a negative length.
\<close>

definition GenerateIdentifier :: "Env \<Rightarrow> Job \<Rightarrow> panic + (error option \<times> Job \<times> effect list)" where
  "GenerateIdentifier env j =
     (if identifier j \<noteq> [] then Inr (None, j, [])
      else
        case os_Stat env (filename j) of
          Inl err \<Rightarrow> Inr (Some (OsError err), j, [Stat (filename j)])
        | Inr stat \<Rightarrow>
            (let readSize = FirstNBytesForIdentifier (config (task j));
                 fileSize = Size stat
             in if sint fileSize < sint readSize
                then Inr (Some (FileSizeSmaller fileSize readSize), j, [Stat (filename j)])
                else
                  case os_Open env (filename j) of
                    Inl err \<Rightarrow>
                      Inr (Some (OsError err), j,
                           [Stat (filename j), Open (filename j), Close None])
                  | Inr f \<Rightarrow>
                      if sint readSize < 0 then Inl MakeSliceLenOutOfRange
                      else
                        (let readBuffer = make_bytes (nat (sint readSize));
                             tr = [Stat (filename j), Open (filename j),
                                   ReadN f (length readBuffer), Close (Some f)]
                         in case read_into env f readBuffer of
                              (readBuffer, l, rerr) \<Rightarrow>
                                (case rerr of
                                   Some err \<Rightarrow> Inr (Some (OsError err), j, tr)
                                 | None \<Rightarrow>
                                     if int l < sint readSize
                                     then Inr (Some (ReadSizeSmaller (of_nat l) readSize), j, tr)
                                     else Inr (None,
                                               j\<lparr>identifier := Sprintf_x (md5_Sum readBuffer)\<rparr>,
                                               tr)))))"

text \<open>
  \<^verbatim>\<open>IsSame\<close> compares two pointers and, through \<^verbatim>\<open>WatchUid\<close>, writes to both Jobs:
  the Jobs live in a store, a pointer is an address or nil.
\<close>

type_synonym addr = nat
type_synonym store = "addr \<Rightarrow> Job"

definition IsSame :: "addr \<Rightarrow> addr option \<Rightarrow> store \<Rightarrow> bool \<times> store" where
  "IsSame j other s =
     (case other of
        None \<Rightarrow> (False, s)
      | Some other \<Rightarrow>
          if j = other then (True, s)
          else
            (case WatchUid (s j) of
               (wj, j') \<Rightarrow>
                 (let s = s(j := j')
                  in case WatchUid (s other) of
                       (wo, other') \<Rightarrow>
                         (let s = s(other := other')
                          in if wj \<noteq> wo then (False, s)
                             else (identifier (s j) = identifier (s other), s)))))"

text \<open>\<^verbatim>\<open>Read\<close> sends the Job to the task's active channel.\<close>

definition Read :: "Job \<Rightarrow> effect list" where
  "Read j = [Send (index j)]"

text \<open>
  \<^verbatim>\<open>ProductEvent\<close> returns the Job and the event it hands to the task's product function:
  the state under the system key and a copy of the body. \<^verbatim>\<open>Grow\<close> panics on a negative
  count.
\<close>

definition ProductEvent :: "int64 \<Rightarrow> Time \<Rightarrow> string \<Rightarrow> Job \<Rightarrow> panic + (Job \<times> Event)" where
  "ProductEvent endOffset' collectTime body' j =
     (let nextOffset' = endOffset' + 1;
          contentBytes = (of_nat (length body') :: int64);
          startOffset = nextOffset' - contentBytes - 1;
          j = j\<lparr>currentLineNumber := currentLineNumber j + 1\<rparr>;
          j = j\<lparr>currentLines := currentLines j + 1\<rparr>;
          j = j\<lparr>endOffset := endOffset'\<rparr>;
          j = j\<lparr>nextOffset := nextOffset'\<rparr>
      in case WatchUid j of
           (watchUid', j) \<Rightarrow>
             (let endOffsetStr = FormatInt endOffset'
              in if watchUidLen j + 1 + int (length endOffsetStr) < 0
                 then Inl BuilderGrowNegativeCount
                 else
                   (let eventUid = watchUid' @ ''-'' @ endOffsetStr;
                        state = \<lparr>Epoch = epoch (task j),
                                 PipelineName = pipelineName (task j),
                                 SourceName = sourceName (task j),
                                 Offset = startOffset,
                                 NextOffset_st = nextOffset',
                                 LineNumber = currentLineNumber j,
                                 Filename = filename j,
                                 CollectTime = collectTime,
                                 ContentBytes = contentBytes + 1,
                                 JobUid_st = Uid j,
                                 JobIndex = Index j,
                                 watchUid_st = watchUid',
                                 EventUid = eventUid\<rparr>;
                        contentBuffer = make_bytes (nat (sint contentBytes));
                        contentBuffer = copy contentBuffer body'
                    in Inr (j, \<lparr>header_SystemStateKey = state, body = contentBuffer\<rparr>))))"

text \<open>
  \<^verbatim>\<open>jobIndex\<close> adds one to the global counter and returns the new value; the counter is
  passed in and handed back. Every field the literal does not name has its zero value.
\<close>

definition jobIndex :: "uint32 \<Rightarrow> uint32 \<times> uint32" where
  "jobIndex globalJobIndex = (globalJobIndex + 1, globalJobIndex + 1)"

definition newJobWithUid :: "WatchTask \<Rightarrow> string \<Rightarrow> string \<Rightarrow> uint32 \<Rightarrow> Job \<times> uint32" where
  "newJobWithUid task' filename' jobUid globalJobIndex =
     (case jobIndex globalJobIndex of
        (idx, globalJobIndex) \<Rightarrow>
          (\<lparr>uid = jobUid, watchUid = [], watchUidLen = 0, index = idx, filename = filename',
            aFileName = Some filename', file = None, status = 0, aStatus = None,
            endOffset = 0, nextOffset = 0, currentLineNumber = 0, currentLines = 0,
            eofCount = 0, lastActiveTime = 0, deleteTime = 0, renameTime = 0,
            identifier = [], task = task'\<rparr>,
           globalJobIndex))"

definition NewJob :: "WatchTask \<Rightarrow> string \<Rightarrow> FileInfo \<Rightarrow> uint32 \<Rightarrow> Job \<times> uint32" where
  "NewJob task' filename' fileInfo globalJobIndex =
     (let jobUid = JobUid fileInfo in newJobWithUid task' filename' jobUid globalJobIndex)"

subsection \<open>Sequences of calls on one Job\<close>

text \<open>
  The methods of a Job, as calls with their arguments. The accessors change nothing.
  \<^verbatim>\<open>IsSame\<close> does to each of its two Jobs what \<^verbatim>\<open>WatchUid\<close> does, or nothing.
  A call runs in the environment it meets; a panic ends the run.
\<close>

datatype call =
    CallWatchUid
  | CallUid
  | CallIndex
  | CallDelete
  | CallIsDelete
  | CallStop
  | CallChangeStatusTo JobStatus
  | CallRelease
  | CallSync
  | CallRenameTo string
  | CallIsRename
  | CallActive
  | CallNextOffset int64
  | CallGenerateIdentifier
  | CallRead
  | CallProductEvent int64 Time string

fun step :: "Env \<Rightarrow> call \<Rightarrow> Job \<Rightarrow> panic + Job" where
  "step env CallWatchUid j = Inr (snd (WatchUid j))"
| "step env CallUid j = Inr j"
| "step env CallIndex j = Inr j"
| "step env CallDelete j = Inr (Delete env j)"
| "step env CallIsDelete j = Inr j"
| "step env CallStop j = Inr (Stop j)"
| "step env (CallChangeStatusTo st) j = Inr (ChangeStatusTo st j)"
| "step env CallRelease j = Inr (fst (Release env j))"
| "step env CallSync j = Sync j"
| "step env (CallRenameTo newFilename) j = Inr (RenameTo env newFilename j)"
| "step env CallIsRename j = Inr j"
| "step env CallActive j = Inr (fst (snd (Active env j)))"
| "step env (CallNextOffset offset) j = Inr (NextOffset offset j)"
| "step env CallGenerateIdentifier j =
     (case GenerateIdentifier env j of Inl p \<Rightarrow> Inl p | Inr (err, j', tr) \<Rightarrow> Inr j')"
| "step env CallRead j = Inr j"
| "step env (CallProductEvent endOffset' collectTime body') j =
     (case ProductEvent endOffset' collectTime body' j of Inl p \<Rightarrow> Inl p | Inr (j', e) \<Rightarrow> Inr j')"

fun run :: "Job \<Rightarrow> (Env \<times> call) list \<Rightarrow> panic + Job" where
  "run j [] = Inr j"
| "run j ((env, c) # cs) = (case step env c j of Inl p \<Rightarrow> Inl p | Inr j' \<Rightarrow> run j' cs)"

text \<open>
  The calls that do not move the read position backwards: every call but a
  \<^verbatim>\<open>NextOffset\<close> with a positive argument below the present \<open>nextOffset\<close> and a
  \<^verbatim>\<open>ProductEvent\<close> whose \<open>endOffset + 1\<close>, as the code computes it, is below it.
\<close>

fun forward :: "Job \<Rightarrow> call \<Rightarrow> bool" where
  "forward j (CallNextOffset offset) \<longleftrightarrow> sint offset \<le> 0 \<or> sint (nextOffset j) \<le> sint offset"
| "forward j (CallProductEvent endOffset' collectTime body') \<longleftrightarrow>
     sint (nextOffset j) \<le> sint (endOffset' + 1)"
| "forward j c \<longleftrightarrow> True"

fun forward_run :: "Job \<Rightarrow> (Env \<times> call) list \<Rightarrow> bool" where
  "forward_run j [] \<longleftrightarrow> True"
| "forward_run j ((env, c) # cs) \<longleftrightarrow>
     forward j c \<and> (case step env c j of Inl p \<Rightarrow> True | Inr j' \<Rightarrow> forward_run j' cs)"

text \<open>
  What holds of every Job that \<^verbatim>\<open>NewJob\<close> made and the methods changed: the cached
  length is the length of the cached watch uid.
\<close>

definition cached_len :: "Job \<Rightarrow> bool" where
  "cached_len j \<longleftrightarrow> watchUid j = [] \<or> watchUidLen j = int (length (watchUid j))"

text \<open>
  A Job on which no method panics: its cached length is right, both shared cells have
  been stored to, and the configured prefix length is not negative.
\<close>

definition steady :: "Job \<Rightarrow> bool" where
  "steady j \<longleftrightarrow>
     cached_len j \<and> aStatus j \<noteq> None \<and> aFileName j \<noteq> None
     \<and> 0 \<le> sint (FirstNBytesForIdentifier (config (task j)))"

subsection \<open>A file, a task and a Job to compute with\<close>

definition example_info :: FileInfo where
  "example_info = \<lparr>Name = ''a.log'', Size = 20, Mode = 420, Ino = 42, Dev = 7\<rparr>"

definition example_task :: WatchTask where
  "example_task =
     \<lparr>pipelineName = ''pipe'', sourceName = ''src'', epoch = 1,
      config = \<lparr>FirstNBytesForIdentifier = 4\<rparr>\<rparr>"

definition example_job :: Job where
  "example_job = fst (NewJob example_task ''/var/log/a.log'' example_info 0)"

text \<open>
  An environment in which every call succeeds: the path opens as descriptor 3 on the
  file of \<open>example_info\<close>, whose content is twenty bytes in two lines.
\<close>

definition example_env :: Env where
  "example_env =
     \<lparr>os_Open = (\<lambda>path. Inr 3),
      os_Stat = (\<lambda>path. Inr example_info),
      file_Stat = (\<lambda>f. Inr example_info),
      file_Seek = (\<lambda>f offset. None),
      file_Read = (\<lambda>f n. (take n ''first line&second l&'', None)),
      file_Close = (\<lambda>f. None),
      LineCountTo = (\<lambda>offset path. Inr 1),
      Now = 1000\<rparr>"

text \<open>The same environment after the path was given to another file, of inode 43.\<close>

definition replaced_env :: Env where
  "replaced_env =
     example_env\<lparr>file_Stat := (\<lambda>f. Inr (example_info\<lparr>Ino := 43\<rparr>)),
                 os_Stat := (\<lambda>path. Inr (example_info\<lparr>Ino := 43\<rparr>)),
                 file_Read := (\<lambda>f n. (take n ''other content, other'', None))\<rparr>"

section \<open>Properties of the identity strings\<close>

lemma of_char_digit: "d < 10 \<Longrightarrow> of_char (digit d) = 48 + d"
  unfolding digit_def by (simp add: of_char_of)

lemma digit_inj: "a < 10 \<Longrightarrow> b < 10 \<Longrightarrow> digit a = digit b \<Longrightarrow> a = b"
proof -
  assume a: "a < 10" and b: "b < 10" and e: "digit a = digit b"
  from e have "of_char (digit a) = (of_char (digit b) :: nat)" by simp
  with a b have "48 + a = 48 + b" by (simp add: of_char_digit)
  then show "a = b" by simp
qed

lemma digit_not_minus: "d < 10 \<Longrightarrow> digit d \<noteq> CHR ''-''"
proof
  assume d: "d < 10" and e: "digit d = CHR ''-''"
  from e have "of_char (digit d) = (of_char (CHR ''-'') :: nat)" by simp
  with d have "48 + d = 45" by (simp add: of_char_digit)
  then show False by simp
qed

lemma formatUint_not_Nil: "formatUint n \<noteq> []"
  by (subst formatUint.simps) simp

lemma formatUint_no_minus: "CHR ''-'' \<notin> set (formatUint n)"
proof (induction n rule: formatUint.induct)
  case (1 n)
  show ?case
  proof (cases "n < 10")
    case True
    then show ?thesis
      using digit_not_minus [of n] by (subst formatUint.simps) auto
  next
    case False
    have "n mod 10 < 10" by simp
    then have "digit (n mod 10) \<noteq> CHR ''-''" by (rule digit_not_minus)
    with False "1.IH" show ?thesis
      by (subst formatUint.simps) auto
  qed
qed

lemma formatUint_inj: "formatUint a = formatUint b \<Longrightarrow> a = b"
proof (induction a arbitrary: b rule: formatUint.induct)
  case (1 n)
  note eq = \<open>formatUint n = formatUint b\<close>
  show ?case
  proof (cases "n < 10")
    case nsmall: True
    show ?thesis
    proof (cases "b < 10")
      case True
      with nsmall eq have "digit n = digit b"
        by (simp add: formatUint.simps [of n] formatUint.simps [of b])
      with nsmall True show ?thesis by (rule digit_inj)
    next
      case False
      with nsmall eq have "[digit n] = formatUint (b div 10) @ [digit (b mod 10)]"
        by (simp add: formatUint.simps [of n] formatUint.simps [of b])
      then have "formatUint (b div 10) = []" by simp
      then show ?thesis using formatUint_not_Nil by blast
    qed
  next
    case nbig: False
    show ?thesis
    proof (cases "b < 10")
      case True
      with nbig eq have "formatUint (n div 10) @ [digit (n mod 10)] = [digit b]"
        by (simp add: formatUint.simps [of n] formatUint.simps [of b])
      then have "formatUint (n div 10) = []" by simp
      then show ?thesis using formatUint_not_Nil by blast
    next
      case False
      with nbig eq
      have "formatUint (n div 10) @ [digit (n mod 10)] = formatUint (b div 10) @ [digit (b mod 10)]"
        by (simp add: formatUint.simps [of n] formatUint.simps [of b])
      then have q: "formatUint (n div 10) = formatUint (b div 10)"
        and r: "digit (n mod 10) = digit (b mod 10)"
        by simp_all
      from nbig q have "n div 10 = b div 10" by (rule "1.IH")
      moreover from r have "n mod 10 = b mod 10"
        by (intro digit_inj) simp_all
      ultimately show ?thesis
        by (metis div_mult_mod_eq)
    qed
  qed
qed

text \<open>Two strings split at a separator that neither prefix contains split alike.\<close>

lemma split_at_first:
  "c \<notin> set xs \<Longrightarrow> c \<notin> set xs' \<Longrightarrow> xs @ c # ys = xs' @ c # ys' \<Longrightarrow> xs = xs' \<and> ys = ys'"
proof (induction xs arbitrary: xs')
  case Nil
  then show ?case by (cases xs') auto
next
  case (Cons x xs)
  then show ?case by (cases xs') auto
qed

lemma split_at_last:
  assumes "c \<notin> set ys" "c \<notin> set ys'" "xs @ c # ys = xs' @ c # ys'"
  shows "xs = xs' \<and> ys = ys'"
proof -
  from assms(3) have "rev (xs @ c # ys) = rev (xs' @ c # ys')" by simp
  then have "rev ys @ c # rev xs = rev ys' @ c # rev xs'" by simp
  moreover have "c \<notin> set (rev ys)" "c \<notin> set (rev ys')" using assms(1,2) by simp_all
  ultimately have "rev ys = rev ys' \<and> rev xs = rev xs'"
    by (intro split_at_first)
  then show ?thesis by simp
qed

lemma JobUid_eq: "JobUid fi = formatUint (unat (Ino fi)) @ ''-'' @ formatUint (unat (Dev fi))"
  by (simp add: JobUid_def AppendUint_def Let_def)

text \<open>
  C9. \<open>JobUid\<close> is the decimal inode number, a minus sign and the decimal device
  number. It is a function of these two fields alone: two entries have the same identity
  string exactly when they agree on inode and device, whatever their names, sizes and modes.
\<close>

theorem JobUid_inode_device:
  "JobUid fi = formatUint (unat (Ino fi)) @ ''-'' @ formatUint (unat (Dev fi))
   \<and> (JobUid fi = JobUid fi' \<longleftrightarrow> Ino fi = Ino fi' \<and> Dev fi = Dev fi')"
proof -
  have "Ino fi = Ino fi' \<and> Dev fi = Dev fi'" if "JobUid fi = JobUid fi'"
  proof -
    from that
    have "formatUint (unat (Ino fi)) @ CHR ''-'' # formatUint (unat (Dev fi))
        = formatUint (unat (Ino fi')) @ CHR ''-'' # formatUint (unat (Dev fi'))"
      by (simp add: JobUid_eq)
    then have "formatUint (unat (Ino fi)) = formatUint (unat (Ino fi'))
        \<and> formatUint (unat (Dev fi)) = formatUint (unat (Dev fi'))"
      by (rule split_at_first [OF formatUint_no_minus formatUint_no_minus])
    then have "unat (Ino fi) = unat (Ino fi')" "unat (Dev fi) = unat (Dev fi')"
      by (auto dest: formatUint_inj)
    then show ?thesis
      by (simp add: word_unat_eq_iff)
  qed
  moreover have "JobUid fi = JobUid fi'" if "Ino fi = Ino fi' \<and> Dev fi = Dev fi'"
    using that by (simp add: JobUid_eq)
  ultimately have "JobUid fi = JobUid fi' \<longleftrightarrow> Ino fi = Ino fi' \<and> Dev fi = Dev fi'"
    by blast
  with JobUid_eq [of fi] show ?thesis
    by blast
qed

lemma example_job_eq:
  "example_job =
     \<lparr>uid = ''42-7'', watchUid = [], watchUidLen = 0, index = 1, filename = ''/var/log/a.log'',
      aFileName = Some ''/var/log/a.log'', file = None, status = 0, aStatus = None,
      endOffset = 0, nextOffset = 0, currentLineNumber = 0, currentLines = 0,
      eofCount = 0, lastActiveTime = 0, deleteTime = 0, renameTime = 0,
      identifier = [], task = example_task\<rparr>"
proof -
  have "JobUid example_info = ''42-7''" by code_simp
  then show ?thesis
    by (simp add: example_job_def NewJob_def newJobWithUid_def jobIndex_def)
qed

theorem JobUid_inode_device_witness:
  "JobUid example_info = ''42-7''
   \<and> JobUid (example_info\<lparr>Name := ''b.log'', Size := 0\<rparr>) = JobUid example_info
   \<and> JobUid (example_info\<lparr>Ino := 43\<rparr>) \<noteq> JobUid example_info"
proof -
  have "JobUid example_info = ''42-7''"
    by code_simp
  moreover
  have "Ino (example_info\<lparr>Name := ''b.log'', Size := 0\<rparr>) = Ino example_info
      \<and> Dev (example_info\<lparr>Name := ''b.log'', Size := 0\<rparr>) = Dev example_info"
    by simp
  with JobUid_inode_device [of "example_info\<lparr>Name := ''b.log'', Size := 0\<rparr>" example_info]
  have "JobUid (example_info\<lparr>Name := ''b.log'', Size := 0\<rparr>) = JobUid example_info"
    by blast
  moreover
  have "Ino (example_info\<lparr>Ino := 43\<rparr>) \<noteq> Ino example_info"
    by (simp add: example_info_def)
  with JobUid_inode_device [of "example_info\<lparr>Ino := 43\<rparr>" example_info]
  have "JobUid (example_info\<lparr>Ino := 43\<rparr>) \<noteq> JobUid example_info"
    by blast
  ultimately show ?thesis by blast
qed

subsection \<open>The watch scope\<close>

lemma WatchJobId_cancel:
  "WatchJobId p s u = WatchJobId p' s' u \<longleftrightarrow> p @ CHR '':'' # s = p' @ CHR '':'' # s'"
proof -
  have "WatchJobId p s u = (p @ CHR '':'' # s) @ CHR '':'' # u" for p s
    by (simp add: WatchJobId_def)
  then show ?thesis by simp
qed

text \<open>
  \<open>WatchJobId\<close> joins its three arguments with colons and escapes nothing, so a colon
  inside a name moves the boundary: the pipeline \<open>a:b\<close> with the source \<open>c\<close> and the
  pipeline \<open>a\<close> with the source \<open>b:c\<close> give one watch scope for the same job uid.
\<close>

theorem WatchJobId_collision:
  "(''a:b'', ''c'') \<noteq> (''a'', ''b:c'')
   \<and> WatchJobId ''a:b'' ''c'' ''1-2'' = WatchJobId ''a'' ''b:c'' ''1-2''"
  by (simp add: WatchJobId_def)

text \<open>
  C5, amended. For a fixed job uid, two different pairs of pipeline name and source name
  give different watch scopes whenever neither pipeline name contains a colon, or neither
  source name does.
\<close>

theorem WatchJobId_injective_without_colon:
  assumes "(CHR '':'' \<notin> set p \<and> CHR '':'' \<notin> set p') \<or> (CHR '':'' \<notin> set s \<and> CHR '':'' \<notin> set s')"
    and "(p, s) \<noteq> (p', s')"
  shows "WatchJobId p s u \<noteq> WatchJobId p' s' u"
proof
  assume "WatchJobId p s u = WatchJobId p' s' u"
  then have eq: "p @ CHR '':'' # s = p' @ CHR '':'' # s'"
    by (simp only: WatchJobId_cancel)
  from assms(1) have "p = p' \<and> s = s'"
  proof
    assume "CHR '':'' \<notin> set p \<and> CHR '':'' \<notin> set p'"
    then show ?thesis using eq by (intro split_at_first) simp_all
  next
    assume "CHR '':'' \<notin> set s \<and> CHR '':'' \<notin> set s'"
    then show ?thesis using eq by (intro split_at_last) simp_all
  qed
  with assms(2) show False by simp
qed

theorem WatchJobId_injective_without_colon_witness:
  "CHR '':'' \<notin> set ''pipe''
   \<and> (''pipe'', ''a'') \<noteq> (''pipe'', ''b'')
   \<and> WatchJobId ''pipe'' ''a'' ''1-2'' \<noteq> WatchJobId ''pipe'' ''b'' ''1-2''"
proof -
  have h1: "(CHR '':'' \<notin> set ''pipe'' \<and> CHR '':'' \<notin> set ''pipe'')
     \<or> (CHR '':'' \<notin> set ''a'' \<and> CHR '':'' \<notin> set ''b'')" by simp
  have h2: "(''pipe'', ''a'') \<noteq> (''pipe'', ''b'')" by simp
  have h3: "CHR '':'' \<notin> set ''pipe''" by simp
  show ?thesis
    using h2 h3 WatchJobId_injective_without_colon [OF h1 h2, of "''1-2''"] by blast
qed

section \<open>Properties of the Job\<close>

subsection \<open>What \<^verbatim>\<open>WatchUid\<close> leaves alone\<close>

lemma WatchUid_cached_len: "cached_len j \<Longrightarrow> 0 \<le> watchUidLen (snd (WatchUid j))"
  by (auto simp: cached_len_def WatchUid_def Let_def)

lemma WatchUid_fst: "fst (WatchUid j) = watchUid (snd (WatchUid j))"
  by (simp add: WatchUid_def Let_def)

lemma WatchUid_keeps:
  "nextOffset (snd (WatchUid j)) = nextOffset j"
  "endOffset (snd (WatchUid j)) = endOffset j"
  "currentLineNumber (snd (WatchUid j)) = currentLineNumber j"
  "currentLines (snd (WatchUid j)) = currentLines j"
  by (simp_all add: WatchUid_def Let_def)

subsection \<open>\<^verbatim>\<open>NextOffset\<close>\<close>

text \<open>
  C4. \<open>NextOffset offset\<close> changes nothing when \<open>offset \<le> 0\<close>; when \<open>offset\<close> is
  positive and greater than the present \<open>nextOffset\<close>, the field becomes \<open>offset\<close>.
\<close>

theorem NextOffset_no_op_or_set:
  "(sint offset \<le> 0 \<longrightarrow> NextOffset offset j = j)
   \<and> (0 < sint offset \<and> sint (nextOffset j) < sint offset
        \<longrightarrow> nextOffset (NextOffset offset j) = offset)"
  by (simp add: NextOffset_def)

theorem NextOffset_no_op_or_set_witness:
  "sint (0 :: int64) \<le> 0 \<and> NextOffset 0 example_job = example_job
   \<and> 0 < sint (20 :: int64) \<and> sint (nextOffset example_job) < sint (20 :: int64)
   \<and> nextOffset (NextOffset 20 example_job) = 20"
  using NextOffset_no_op_or_set [of 0 example_job] NextOffset_no_op_or_set [of 20 example_job]
  by (simp add: example_job_eq)

subsection \<open>\<^verbatim>\<open>ProductEvent\<close>\<close>

lemma FormatInt_10: "FormatInt 10 = ''10''"
  by code_simp

text \<open>
  C1. On a Job with \<open>nextOffset = 0\<close> whose cached length is that of its cached watch
  uid, \<open>ProductEvent 10 t ''hello''\<close> returns: the record has start offset 5 and 6
  content bytes; the Job is left with \<open>nextOffset = 11\<close> and \<open>endOffset = 10\<close>; both line
  counters have grown by one (in \<^verbatim>\<open>int64\<close>); the event id is the watch uid of the Job
  followed by \<open>-10\<close>; the body of the event is the five bytes.
\<close>

theorem ProductEvent_hello:
  assumes "nextOffset j = 0" and "cached_len j"
  shows "\<exists>j' e. ProductEvent 10 t ''hello'' j = Inr (j', e)
    \<and> Offset (header_SystemStateKey e) = 5
    \<and> ContentBytes (header_SystemStateKey e) = 6
    \<and> NextOffset_st (header_SystemStateKey e) = 11
    \<and> nextOffset j' = 11
    \<and> endOffset j' = 10
    \<and> currentLineNumber j' = currentLineNumber j + 1
    \<and> currentLines j' = currentLines j + 1
    \<and> LineNumber (header_SystemStateKey e) = currentLineNumber j + 1
    \<and> EventUid (header_SystemStateKey e) = fst (WatchUid j) @ ''-10''
    \<and> EventUid (header_SystemStateKey e) = watchUid j' @ ''-10''
    \<and> body e = ''hello''"
proof -
  define j1 where "j1 = j\<lparr>currentLineNumber := currentLineNumber j + 1,
    currentLines := currentLines j + 1, endOffset := 10, nextOffset := 11\<rparr>"
  obtain w j2 where w: "WatchUid j1 = (w, j2)" by (cases "WatchUid j1")
  have cl: "cached_len j1" using assms(2) by (simp add: j1_def cached_len_def)
  from WatchUid_cached_len [OF cl] w have len: "0 \<le> watchUidLen j2" by simp
  from WatchUid_fst [of j1] w have wj2: "w = watchUid j2" by simp
  have wj: "w = fst (WatchUid j)"
    using w by (auto simp: WatchUid_def Uid_def Let_def j1_def split: if_splits)
  from WatchUid_keeps [of j1] w have keeps:
    "nextOffset j2 = 11" "endOffset j2 = 10"
    "currentLineNumber j2 = currentLineNumber j + 1" "currentLines j2 = currentLines j + 1"
    by (simp_all add: j1_def)
  have "ProductEvent 10 t ''hello'' j = Inr (j2,
      \<lparr>header_SystemStateKey = \<lparr>Epoch = epoch (task j2),
         PipelineName = pipelineName (task j2), SourceName = sourceName (task j2),
         Offset = 5, NextOffset_st = 11, LineNumber = currentLineNumber j2,
         Filename = filename j2, CollectTime = t, ContentBytes = 6,
         JobUid_st = Uid j2, JobIndex = Index j2, watchUid_st = w,
         EventUid = w @ ''-10''\<rparr>, body = ''hello''\<rparr>)"
    using len w unfolding ProductEvent_def Let_def j1_def [symmetric]
    by (simp add: FormatInt_10 copy_def make_bytes_def j1_def)
  with keeps wj wj2 show ?thesis by simp
qed

theorem ProductEvent_hello_witness:
  "nextOffset example_job = 0 \<and> cached_len example_job
   \<and> (\<exists>j' e. ProductEvent 10 1000 ''hello'' example_job = Inr (j', e)
        \<and> Offset (header_SystemStateKey e) = 5
        \<and> ContentBytes (header_SystemStateKey e) = 6
        \<and> nextOffset j' = 11 \<and> endOffset j' = 10
        \<and> currentLineNumber j' = 1 \<and> currentLines j' = 1
        \<and> EventUid (header_SystemStateKey e) = ''pipe:src:42-7-10'')"
proof -
  have h1: "nextOffset example_job = 0" by (simp add: example_job_eq)
  have h2: "cached_len example_job" by (simp add: example_job_eq cached_len_def)
  have w: "fst (WatchUid example_job) = ''pipe:src:42-7''"
    by (simp add: example_job_eq WatchUid_def WatchJobId_def Uid_def Let_def example_task_def)
  have c: "currentLineNumber example_job = 0" "currentLines example_job = 0"
    by (simp_all add: example_job_eq)
  from ProductEvent_hello [OF h1 h2, of 1000] w c h1 h2 show ?thesis
    by auto
qed

subsection \<open>\<^verbatim>\<open>IsSame\<close>\<close>

text \<open>
  C10. For two Jobs at different addresses whose \<open>WatchUid\<close> strings are equal and whose
  identifiers are both still empty, \<open>IsSame\<close> returns true.
\<close>

theorem IsSame_unset_identifiers:
  assumes "j \<noteq> other"
    and "fst (WatchUid (s j)) = fst (WatchUid (s other))"
    and "identifier (s j) = []" and "identifier (s other) = []"
  shows "fst (IsSame j (Some other) s)"
  using assms by (simp add: IsSame_def WatchUid_def Let_def split: prod.splits if_splits)

theorem IsSame_unset_identifiers_witness:
  "(0 :: addr) \<noteq> 1
   \<and> fst (WatchUid example_job) = fst (WatchUid (example_job\<lparr>index := 2\<rparr>))
   \<and> identifier example_job = [] \<and> identifier (example_job\<lparr>index := 2\<rparr>) = []
   \<and> fst (IsSame 0 (Some 1) (\<lambda>a. if a = 0 then example_job else example_job\<lparr>index := 2\<rparr>))"
proof -
  let ?s = "\<lambda>a :: addr. if a = 0 then example_job else example_job\<lparr>index := 2\<rparr>"
  have h1: "(0 :: addr) \<noteq> 1" by simp
  have h2: "fst (WatchUid (?s 0)) = fst (WatchUid (?s 1))"
    by (simp add: WatchUid_def Uid_def Let_def example_job_eq)
  have h3: "identifier (?s 0) = []" by (simp add: example_job_eq)
  have h4: "identifier (?s 1) = []" by (simp add: example_job_eq)
  from IsSame_unset_identifiers [OF h1 h2 h3 h4] h2 h3 h4 show ?thesis
    by simp
qed

subsection \<open>What a call does to \<open>nextOffset\<close> and to \<open>deleteTime\<close>\<close>

lemma Active_nextOffset: "nextOffset (fst (snd (Active env j))) = nextOffset j"
  by (simp add: Active_def Active_tail_def Let_def split: option.splits sum.splits)

lemma Active_deleteTime: "deleteTime (fst (snd (Active env j))) = deleteTime j"
  by (simp add: Active_def Active_tail_def Let_def split: option.splits sum.splits)

lemma GenerateIdentifier_nextOffset:
  "GenerateIdentifier env j = Inr (err, j', tr) \<Longrightarrow> nextOffset j' = nextOffset j"
  by (auto simp: GenerateIdentifier_def Let_def split: if_splits option.splits sum.splits prod.splits)

lemma GenerateIdentifier_deleteTime:
  "GenerateIdentifier env j = Inr (err, j', tr) \<Longrightarrow> deleteTime j' = deleteTime j"
  by (auto simp: GenerateIdentifier_def Let_def split: if_splits option.splits sum.splits prod.splits)

lemma ProductEvent_nextOffset:
  "ProductEvent e t b j = Inr (j', ev) \<Longrightarrow> nextOffset j' = e + 1"
  by (auto simp: ProductEvent_def WatchUid_def Let_def split: if_splits prod.splits)

lemma ProductEvent_deleteTime:
  "ProductEvent e t b j = Inr (j', ev) \<Longrightarrow> deleteTime j' = deleteTime j"
  by (auto simp: ProductEvent_def WatchUid_def Let_def split: if_splits prod.splits)

lemma step_nextOffset:
  "step env c j = Inr j' \<Longrightarrow>
   nextOffset j' =
     (case c of
        CallNextOffset offset \<Rightarrow> if 0 < sint offset then offset else nextOffset j
      | CallProductEvent e t b \<Rightarrow> e + 1
      | _ \<Rightarrow> nextOffset j)"
proof (cases c)
  case CallActive
  then show "step env c j = Inr j' \<Longrightarrow> ?thesis" using Active_nextOffset [of env j] by auto
next
  case CallGenerateIdentifier
  then show "step env c j = Inr j' \<Longrightarrow> ?thesis"
    by (auto split: sum.splits dest: GenerateIdentifier_nextOffset)
next
  case (CallProductEvent e t b)
  then show "step env c j = Inr j' \<Longrightarrow> ?thesis"
    by (auto split: sum.splits dest: ProductEvent_nextOffset)
qed (auto simp: WatchUid_def Delete_def Stop_def ChangeStatusTo_def Release_def Sync_def
      RenameTo_def NextOffset_def Let_def split: option.splits)

lemma step_deleteTime_eq:
  "step env c j = Inr j' \<Longrightarrow>
   deleteTime j' = (case c of CallDelete \<Rightarrow> Now env | _ \<Rightarrow> deleteTime j)"
proof (cases c)
  case CallActive
  then show "step env c j = Inr j' \<Longrightarrow> ?thesis" using Active_deleteTime [of env j] by auto
next
  case CallGenerateIdentifier
  then show "step env c j = Inr j' \<Longrightarrow> ?thesis"
    by (auto split: sum.splits dest: GenerateIdentifier_deleteTime)
next
  case (CallProductEvent e t b)
  then show "step env c j = Inr j' \<Longrightarrow> ?thesis"
    by (auto split: sum.splits dest: ProductEvent_deleteTime)
qed (auto simp: WatchUid_def Delete_def Stop_def ChangeStatusTo_def Release_def Sync_def
      RenameTo_def NextOffset_def Let_def split: option.splits)

lemma step_deleteTime:
  "step env c j = Inr j' \<Longrightarrow> Now env \<noteq> 0 \<Longrightarrow> deleteTime j \<noteq> 0 \<Longrightarrow> deleteTime j' \<noteq> 0"
  by (drule step_deleteTime_eq) (cases c; simp)

lemma step_forward:
  "step env c j = Inr j' \<Longrightarrow> forward j c \<Longrightarrow> sint (nextOffset j) \<le> sint (nextOffset j')"
  by (drule step_nextOffset) (cases c; auto)

lemma run_forward:
  "run j cs = Inr j' \<Longrightarrow> forward_run j cs \<Longrightarrow> sint (nextOffset j) \<le> sint (nextOffset j')"
proof (induction cs arbitrary: j)
  case Nil
  then show ?case by simp
next
  case (Cons ec cs)
  obtain env c where ec: "ec = (env, c)" by (cases ec)
  from Cons.prems ec obtain k where k: "step env c j = Inr k" and r: "run k cs = Inr j'"
    by (auto split: sum.splits)
  from Cons.prems ec k have f: "forward j c" and fr: "forward_run k cs"
    by auto
  from k f have "sint (nextOffset j) \<le> sint (nextOffset k)" by (rule step_forward)
  also from r fr have "\<dots> \<le> sint (nextOffset j')" by (rule Cons.IH)
  finally show ?case .
qed

lemma run_deleteTime:
  "run j cs = Inr j' \<Longrightarrow> \<forall>ec \<in> set cs. Now (fst ec) \<noteq> 0 \<Longrightarrow> deleteTime j \<noteq> 0
   \<Longrightarrow> deleteTime j' \<noteq> 0"
proof (induction cs arbitrary: j)
  case Nil
  then show ?case by simp
next
  case (Cons ec cs)
  obtain env c where ec: "ec = (env, c)" by (cases ec)
  from Cons.prems ec obtain k where k: "step env c j = Inr k" and r: "run k cs = Inr j'"
    by (auto split: sum.splits)
  from Cons.prems(2) ec have n: "Now env \<noteq> 0" by simp
  from k n Cons.prems(3) have "deleteTime k \<noteq> 0" by (rule step_deleteTime)
  with r Cons.prems(2) show ?case by (intro Cons.IH) simp_all
qed

subsection \<open>Activation in the example environments\<close>

lemma JobUid_example: "JobUid example_info = ''42-7''"
  by code_simp

lemma JobUid_replaced: "JobUid (example_info\<lparr>Ino := 43\<rparr>) = ''43-7''"
  by code_simp

lemma Active_example:
  "Active example_env example_job =
     (None,
      example_job\<lparr>file := Some 3, status := JobActive, aStatus := Some JobActive,
                  eofCount := 0, lastActiveTime := 1000\<rparr>,
      [Open ''/var/log/a.log'', FStat 3])"
  by (simp add: Active_def Active_tail_def Let_def example_env_def example_job_eq
      JobUid_example Uid_def)

subsection \<open>Calls that cannot panic\<close>

text \<open>
  \<open>NewJob\<close> makes a Job whose cached length is right and whose file name cell is
  stored, and no call makes the cached length wrong; the status cell is stored by the
  first change of status. From then on, with a prefix length that is not negative, every
  call returns and leaves the Job so.
\<close>

lemma NewJob_cached_len: "cached_len (fst (NewJob task' filename' fileInfo g))"
  by (simp add: NewJob_def newJobWithUid_def jobIndex_def cached_len_def)

lemma WatchUid_keeps_cached_len: "cached_len j \<Longrightarrow> cached_len (snd (WatchUid j))"
  by (auto simp: cached_len_def WatchUid_def Let_def)

lemma Active_watchUid:
  "watchUid (fst (snd (Active env j))) = watchUid j"
  "watchUidLen (fst (snd (Active env j))) = watchUidLen j"
  by (simp_all add: Active_def Active_tail_def Let_def split: option.splits sum.splits)

lemma GenerateIdentifier_watchUid:
  "GenerateIdentifier env j = Inr (err, j', tr)
   \<Longrightarrow> watchUid j' = watchUid j \<and> watchUidLen j' = watchUidLen j"
  by (auto simp: GenerateIdentifier_def Let_def split: if_splits option.splits sum.splits prod.splits)

lemma ProductEvent_cached_len:
  "cached_len j \<Longrightarrow> ProductEvent endOffset' t body' j = Inr (j', e) \<Longrightarrow> cached_len j'"
  by (auto simp: ProductEvent_def WatchUid_def Let_def cached_len_def split: if_splits prod.splits)

lemma step_cached_len: "cached_len j \<Longrightarrow> step env c j = Inr j' \<Longrightarrow> cached_len j'"
proof (cases c)
  case CallWatchUid
  then show "cached_len j \<Longrightarrow> step env c j = Inr j' \<Longrightarrow> ?thesis"
    using WatchUid_keeps_cached_len [of j] by auto
next
  case CallActive
  then show "cached_len j \<Longrightarrow> step env c j = Inr j' \<Longrightarrow> ?thesis"
    by (auto simp: cached_len_def Active_watchUid)
next
  case CallGenerateIdentifier
  then show "cached_len j \<Longrightarrow> step env c j = Inr j' \<Longrightarrow> ?thesis"
    by (auto simp: cached_len_def split: sum.splits dest: GenerateIdentifier_watchUid)
next
  case (CallProductEvent endOffset' t body')
  then show "cached_len j \<Longrightarrow> step env c j = Inr j' \<Longrightarrow> ?thesis"
    by (auto split: sum.splits dest: ProductEvent_cached_len)
qed (auto simp: cached_len_def Delete_def Stop_def ChangeStatusTo_def Release_def
      Sync_def RenameTo_def NextOffset_def split: option.splits if_splits)

lemma run_cached_len: "cached_len j \<Longrightarrow> run j cs = Inr j' \<Longrightarrow> cached_len j'"
proof (induction cs arbitrary: j)
  case Nil
  then show ?case by simp
next
  case (Cons ec cs)
  obtain env c where ec: "ec = (env, c)" by (cases ec)
  from Cons.prems ec obtain k where k: "step env c j = Inr k" and r: "run k cs = Inr j'"
    by (auto split: sum.splits)
  from Cons.prems(1) k have "cached_len k" by (rule step_cached_len)
  then show ?case using r by (rule Cons.IH)
qed

lemma WatchUid_keeps_cells:
  "aStatus (snd (WatchUid j)) = aStatus j"
  "aFileName (snd (WatchUid j)) = aFileName j"
  "task (snd (WatchUid j)) = task j"
  by (simp_all add: WatchUid_def Let_def)

lemma WatchUid_keeps_steady: "steady j \<Longrightarrow> steady (snd (WatchUid j))"
  by (simp add: steady_def WatchUid_keeps_cached_len WatchUid_keeps_cells)

lemma Active_keeps_steady: "steady j \<Longrightarrow> steady (fst (snd (Active env j)))"
  by (simp add: Active_def Active_tail_def Let_def steady_def cached_len_def
      split: option.splits sum.splits)

lemma GenerateIdentifier_steady:
  "steady j \<Longrightarrow> \<exists>err j' tr. GenerateIdentifier env j = Inr (err, j', tr) \<and> steady j'"
  by (auto simp: GenerateIdentifier_def Let_def steady_def cached_len_def
      split: option.splits sum.splits prod.splits)

lemma ProductEvent_steady:
  assumes "steady j"
  shows "\<exists>j' e. ProductEvent endOffset' t body' j = Inr (j', e) \<and> steady j'"
proof -
  define j1 where "j1 = j\<lparr>currentLineNumber := currentLineNumber j + 1,
    currentLines := currentLines j + 1, endOffset := endOffset',
    nextOffset := endOffset' + 1\<rparr>"
  from assms have s1: "steady j1"
    by (simp add: j1_def steady_def cached_len_def)
  then have s2: "steady (snd (WatchUid j1))"
    by (rule WatchUid_keeps_steady)
  from s1 have "0 \<le> watchUidLen (snd (WatchUid j1))"
    by (intro WatchUid_cached_len) (simp add: steady_def)
  then have "\<not> watchUidLen (snd (WatchUid j1)) + 1 + int (length (FormatInt endOffset')) < 0"
    by simp
  with s2 show ?thesis
    by (simp add: ProductEvent_def Let_def split_beta j1_def)
qed

lemma step_steady: "steady j \<Longrightarrow> \<exists>j'. step env c j = Inr j' \<and> steady j'"
proof (cases c)
  case CallWatchUid
  then show "steady j \<Longrightarrow> ?thesis" by (simp add: WatchUid_keeps_steady)
next
  case CallActive
  then show "steady j \<Longrightarrow> ?thesis" by (simp add: Active_keeps_steady)
next
  case CallGenerateIdentifier
  then show "steady j \<Longrightarrow> ?thesis"
    using GenerateIdentifier_steady [of j env] by auto
next
  case (CallProductEvent endOffset' t body')
  then show "steady j \<Longrightarrow> ?thesis"
    using ProductEvent_steady [of j endOffset' t body'] by auto
qed (auto simp: steady_def cached_len_def Delete_def Stop_def ChangeStatusTo_def Release_def
      Sync_def RenameTo_def NextOffset_def split: option.splits)

lemma run_steady: "steady j \<Longrightarrow> \<exists>j'. run j cs = Inr j' \<and> steady j'"
proof (induction cs arbitrary: j)
  case Nil
  then show ?case by simp
next
  case (Cons ec cs)
  obtain env c where ec: "ec = (env, c)" by (cases ec)
  from Cons.prems obtain k where k: "step env c j = Inr k" "steady k"
    using step_steady [of j env c] by blast
  from Cons.IH [OF k(2)] k(1) ec show ?case by simp
qed

lemma Delete_steady:
  "cached_len j \<Longrightarrow> aFileName j \<noteq> None
   \<Longrightarrow> 0 \<le> sint (FirstNBytesForIdentifier (config (task j))) \<Longrightarrow> steady (Delete env j)"
  by (simp add: steady_def cached_len_def Delete_def ChangeStatusTo_def)

subsection \<open>The read position over a sequence of calls\<close>

text \<open>
  \<open>NextOffset\<close> stores any positive argument and \<open>ProductEvent\<close> stores
  \<open>endOffset + 1\<close>, whatever the field held: after \<open>NextOffset 10\<close>, both
  \<open>NextOffset 5\<close> and a \<open>ProductEvent\<close> that ends at offset 3 lower \<open>nextOffset\<close>.
\<close>

theorem nextOffset_lowered:
  "map_sum id nextOffset (run example_job [(example_env, CallNextOffset 10)]) = Inr 10
   \<and> map_sum id nextOffset
        (run example_job [(example_env, CallNextOffset 10), (example_env, CallNextOffset 5)])
      = Inr 5
   \<and> map_sum id nextOffset
        (run example_job [(example_env, CallNextOffset 10),
                          (example_env, CallProductEvent 3 1000 ''abc'')])
      = Inr 4
   \<and> 0 < sint (5 :: int64) \<and> sint (5 :: int64) < sint (10 :: int64)
   \<and> sint (4 :: int64) < sint (10 :: int64)"
proof -
  have "FormatInt 3 = ''3''" by code_simp
  then show ?thesis
    by (simp add: NextOffset_def ProductEvent_def WatchUid_def Let_def example_job_eq)
qed

text \<open>
  C3, amended. A \<open>NextOffset\<close> whose argument is zero or negative changes nothing.
  \<open>nextOffset\<close> is written by \<open>NextOffset\<close> with a positive argument, which stores the
  argument, and by \<open>ProductEvent\<close>, which stores \<open>endOffset + 1\<close>, and by no other call:
  after a call that returns, the field is as this says. So a call that is \<open>forward\<close> (any call but a \<open>NextOffset\<close>
  with a positive argument below the present \<open>nextOffset\<close> or a \<open>ProductEvent\<close> whose
  \<open>endOffset + 1\<close> is below it) never lowers it, and over a sequence of such calls
  \<open>nextOffset\<close> does not decrease. On a steady Job such a sequence runs to its end.
\<close>

theorem nextOffset_forward:
  "(sint offset \<le> 0 \<longrightarrow> NextOffset offset j = j)
   \<and> (step env c j = Inr j' \<and> forward j c \<longrightarrow> sint (nextOffset j) \<le> sint (nextOffset j'))
   \<and> (step env c j = Inr j' \<longrightarrow>
        nextOffset j' =
          (case c of
             CallNextOffset k \<Rightarrow> if 0 < sint k then k else nextOffset j
           | CallProductEvent e t b \<Rightarrow> e + 1
           | _ \<Rightarrow> nextOffset j))
   \<and> (run j cs = Inr j'' \<and> forward_run j cs \<longrightarrow> sint (nextOffset j) \<le> sint (nextOffset j''))
   \<and> (steady j \<and> forward_run j cs \<longrightarrow>
        (\<exists>k. run j cs = Inr k \<and> sint (nextOffset j) \<le> sint (nextOffset k)))"
proof -
  have "\<exists>k. run j cs = Inr k \<and> sint (nextOffset j) \<le> sint (nextOffset k)"
    if "steady j" "forward_run j cs"
  proof -
    from that(1) obtain k where k: "run j cs = Inr k"
      using run_steady [of j cs] by blast
    from k that(2) have "sint (nextOffset j) \<le> sint (nextOffset k)"
      by (rule run_forward)
    with k show ?thesis by blast
  qed
  moreover have "nextOffset j' =
          (case c of
             CallNextOffset k \<Rightarrow> if 0 < sint k then k else nextOffset j
           | CallProductEvent e t b \<Rightarrow> e + 1
           | _ \<Rightarrow> nextOffset j)"
    if "step env c j = Inr j'"
    using that by (rule step_nextOffset)
  moreover have "sint offset \<le> 0 \<longrightarrow> NextOffset offset j = j"
    by (simp add: NextOffset_def)
  ultimately show ?thesis
    using step_forward [of env c j j'] run_forward [of j cs j'']
    by blast
qed

theorem nextOffset_forward_witness:
  "sint (0 :: int64) \<le> 0 \<and> NextOffset 0 example_job = example_job
   \<and> step example_env (CallNextOffset 10) example_job = Inr (example_job\<lparr>nextOffset := 10\<rparr>)
   \<and> forward example_job (CallNextOffset 10)
   \<and> sint (nextOffset example_job) \<le> sint (nextOffset (example_job\<lparr>nextOffset := 10\<rparr>))
   \<and> run example_job
        [(example_env, CallActive), (example_env, CallNextOffset 10),
         (example_env, CallNextOffset 0), (replaced_env, CallStop),
         (example_env, CallNextOffset 30)]
      = Inr (example_job\<lparr>file := Some 3, status := JobStop, aStatus := Some JobStop,
                         eofCount := 0, lastActiveTime := 1000, nextOffset := 30\<rparr>)
   \<and> forward_run example_job
        [(example_env, CallActive), (example_env, CallNextOffset 10),
         (example_env, CallNextOffset 0), (replaced_env, CallStop),
         (example_env, CallNextOffset 30)]
   \<and> sint (nextOffset example_job)
      \<le> sint (nextOffset (example_job\<lparr>file := Some 3, status := JobStop, aStatus := Some JobStop,
                         eofCount := 0, lastActiveTime := 1000, nextOffset := 30\<rparr>))
   \<and> steady (Stop example_job)
   \<and> forward_run (Stop example_job) [(example_env, CallSync), (example_env, CallNextOffset 7)]
   \<and> (\<exists>k. run (Stop example_job) [(example_env, CallSync), (example_env, CallNextOffset 7)]
              = Inr k
            \<and> sint (nextOffset (Stop example_job)) \<le> sint (nextOffset k))"
proof -
  let ?cs = "[(example_env, CallActive), (example_env, CallNextOffset 10),
         (example_env, CallNextOffset 0), (replaced_env, CallStop),
         (example_env, CallNextOffset 30)]"
  let ?j = "example_job\<lparr>file := Some 3, status := JobStop, aStatus := Some JobStop,
                         eofCount := 0, lastActiveTime := 1000, nextOffset := 30\<rparr>"
  have s: "step example_env (CallNextOffset 10) example_job = Inr (example_job\<lparr>nextOffset := 10\<rparr>)"
    by (simp add: NextOffset_def)
  have f: "forward example_job (CallNextOffset 10)"
    by (simp add: example_job_eq)
  have z: "nextOffset example_job = 0"
    by (simp add: example_job_eq)
  have r: "run example_job ?cs = Inr ?j"
    by (simp add: Active_example NextOffset_def Stop_def ChangeStatusTo_def)
  have fr: "forward_run example_job ?cs"
    by (simp add: Active_example NextOffset_def Stop_def ChangeStatusTo_def z)
  have st: "steady (Stop example_job)"
    by (simp add: steady_def cached_len_def Stop_def ChangeStatusTo_def example_job_eq
        example_task_def)
  have fs: "forward_run (Stop example_job) [(example_env, CallSync), (example_env, CallNextOffset 7)]"
    by (simp add: Stop_def ChangeStatusTo_def Sync_def example_job_eq)
  from nextOffset_forward [of 0 example_job example_env "CallNextOffset 10"
      "example_job\<lparr>nextOffset := 10\<rparr>" ?cs ?j] s f r fr
  have a: "sint (nextOffset example_job) \<le> sint (nextOffset ?j)"
    by simp
  from nextOffset_forward [of _ "Stop example_job" _ _ _
      "[(example_env, CallSync), (example_env, CallNextOffset 7)]"] st fs
  have b: "\<exists>k. run (Stop example_job) [(example_env, CallSync), (example_env, CallNextOffset 7)]
              = Inr k
            \<and> sint (nextOffset (Stop example_job)) \<le> sint (nextOffset k)"
    by blast
  from a b s f r fr st fs show ?thesis
    by (simp add: NextOffset_def)
qed

subsection \<open>Deletion\<close>

text \<open>
  C7. \<open>IsDelete\<close> holds exactly when the working status is \<open>JobDelete\<close> or
  \<open>deleteTime\<close> is not the zero instant. \<open>Delete\<close> sets the status in both copies
  and \<open>deleteTime\<close> to the reading of the clock, so \<open>IsDelete\<close> holds after it. No
  method resets \<open>deleteTime\<close>: when the clock never reads the zero instant, \<open>IsDelete\<close>
  holds after every sequence of further calls, whatever they do to the status. On a Job
  with a cached length that is right, a stored file name cell and a prefix length that is
  not negative, every such sequence runs to its end.
\<close>

theorem IsDelete_sticky:
  "(IsDelete j \<longleftrightarrow> status j = JobDelete \<or> \<not> IsZero (deleteTime j))
   \<and> status (Delete env j) = JobDelete \<and> aStatus (Delete env j) = Some JobDelete
   \<and> deleteTime (Delete env j) = Now env
   \<and> IsDelete (Delete env j)
   \<and> (\<not> IsZero (Now env) \<and> (\<forall>ec \<in> set cs. \<not> IsZero (Now (fst ec)))
        \<and> run (Delete env j) cs = Inr j' \<longrightarrow> IsDelete j')
   \<and> (\<not> IsZero (Now env) \<and> (\<forall>ec \<in> set cs. \<not> IsZero (Now (fst ec)))
        \<and> cached_len j \<and> aFileName j \<noteq> None
        \<and> 0 \<le> sint (FirstNBytesForIdentifier (config (task j)))
       \<longrightarrow> (\<exists>k. run (Delete env j) cs = Inr k \<and> IsDelete k))"
proof -
  have later: "IsDelete k"
    if "\<not> IsZero (Now env)" "\<forall>ec \<in> set cs. \<not> IsZero (Now (fst ec))"
      "run (Delete env j) cs = Inr k" for k
  proof -
    from that(1) have "deleteTime (Delete env j) \<noteq> 0"
      by (simp add: Delete_def IsZero_def)
    with that(2,3) have "deleteTime k \<noteq> 0"
      by (intro run_deleteTime [of "Delete env j" cs k]) (simp_all add: IsZero_def)
    then show ?thesis by (simp add: IsDelete_def IsZero_def)
  qed
  have "\<exists>k. run (Delete env j) cs = Inr k \<and> IsDelete k"
    if "\<not> IsZero (Now env)" "\<forall>ec \<in> set cs. \<not> IsZero (Now (fst ec))"
      "cached_len j" "aFileName j \<noteq> None"
      "0 \<le> sint (FirstNBytesForIdentifier (config (task j)))"
  proof -
    from that(3-5) have "steady (Delete env j)" by (rule Delete_steady)
    then obtain k where k: "run (Delete env j) cs = Inr k"
      using run_steady [of "Delete env j" cs] by blast
    with that(1,2) have "IsDelete k"
      using later [of k] by blast
    with k show ?thesis by blast
  qed
  with later [of j'] show ?thesis
    by (auto simp: IsDelete_def Delete_def ChangeStatusTo_def)
qed

theorem IsDelete_sticky_witness:
  "\<not> IsZero (Now example_env)
   \<and> cached_len example_job \<and> aFileName example_job \<noteq> None
   \<and> 0 \<le> sint (FirstNBytesForIdentifier (config (task example_job)))
   \<and> run (Delete example_env example_job)
        [(example_env, CallChangeStatusTo JobStop), (example_env, CallStop),
         (example_env, CallActive)]
      = Inr (example_job\<lparr>deleteTime := 1000, file := Some 3, status := JobActive,
                         aStatus := Some JobActive, eofCount := 0, lastActiveTime := 1000\<rparr>)
   \<and> status (example_job\<lparr>deleteTime := 1000, file := Some 3, status := JobActive,
                         aStatus := Some JobActive, eofCount := 0, lastActiveTime := 1000\<rparr>)
      \<noteq> JobDelete
   \<and> IsDelete (example_job\<lparr>deleteTime := 1000, file := Some 3, status := JobActive,
                         aStatus := Some JobActive, eofCount := 0, lastActiveTime := 1000\<rparr>)"
proof -
  let ?cs = "[(example_env, CallChangeStatusTo JobStop), (example_env, CallStop),
         (example_env, CallActive)]"
  let ?j = "example_job\<lparr>deleteTime := 1000, file := Some 3, status := JobActive,
                         aStatus := Some JobActive, eofCount := 0, lastActiveTime := 1000\<rparr>"
  have n: "\<not> IsZero (Now example_env)"
    by (simp add: IsZero_def example_env_def)
  then have a: "\<forall>ec \<in> set ?cs. \<not> IsZero (Now (fst ec))"
    by simp
  have r: "run (Delete example_env example_job) ?cs = Inr ?j"
    by (simp add: Delete_def Stop_def ChangeStatusTo_def Active_def Active_tail_def Let_def
        example_env_def example_job_eq JobUid_example Uid_def)
  have "status ?j \<noteq> JobDelete"
    by (simp add: JobActive_def JobDelete_def)
  moreover have "cached_len example_job" "aFileName example_job \<noteq> None"
    "0 \<le> sint (FirstNBytesForIdentifier (config (task example_job)))"
    by (simp_all add: cached_len_def example_job_eq example_task_def)
  ultimately show ?thesis
    using IsDelete_sticky [of example_job example_env ?cs ?j] n a r by blast
qed

subsection \<open>Activation\<close>

text \<open>
  C8. Whenever \<open>Active\<close> returns no error, the status is \<open>JobActive\<close> in the working
  copy and in the shared cell, \<open>eofCount\<close> is 0 and \<open>lastActiveTime\<close> is the reading of
  the clock. On a Job that holds a file, \<open>Active\<close> makes no call at all (no open, no
  stat, no seek), returns no error and changes these four fields only.
\<close>

theorem Active_success:
  "(Active env j = (None, j', tr) \<longrightarrow>
      status j' = JobActive \<and> aStatus j' = Some JobActive \<and> eofCount j' = 0
      \<and> lastActiveTime j' = Now env)
   \<and> (file j \<noteq> None \<longrightarrow>
      Active env j =
        (None,
         j\<lparr>status := JobActive, aStatus := Some JobActive, eofCount := 0,
           lastActiveTime := Now env\<rparr>,
         []))"
proof (rule conjI)
  show "Active env j = (None, j', tr) \<longrightarrow>
      status j' = JobActive \<and> aStatus j' = Some JobActive \<and> eofCount j' = 0
      \<and> lastActiveTime j' = Now env"
    by (auto simp: Active_def Active_tail_def Let_def split: option.splits sum.splits if_splits)
next
  show "file j \<noteq> None \<longrightarrow>
      Active env j =
        (None,
         j\<lparr>status := JobActive, aStatus := Some JobActive, eofCount := 0,
           lastActiveTime := Now env\<rparr>,
         [])"
    by (auto simp: Active_def Active_tail_def)
qed

theorem Active_success_witness:
  "Active example_env example_job =
     (None,
      example_job\<lparr>file := Some 3, status := JobActive, aStatus := Some JobActive,
                  eofCount := 0, lastActiveTime := 1000\<rparr>,
      [Open ''/var/log/a.log'', FStat 3])
   \<and> status (example_job\<lparr>file := Some 3, status := JobActive, aStatus := Some JobActive,
                  eofCount := 0, lastActiveTime := 1000\<rparr>) = JobActive
   \<and> file (example_job\<lparr>file := Some 3\<rparr>) \<noteq> None
   \<and> Active replaced_env (example_job\<lparr>file := Some 3\<rparr>) =
     (None,
      example_job\<lparr>file := Some 3, status := JobActive, aStatus := Some JobActive,
                  eofCount := 0, lastActiveTime := 1000\<rparr>,
      [])"
proof -
  have n: "Now replaced_env = 1000" by (simp add: replaced_env_def example_env_def)
  have f: "file (example_job\<lparr>file := Some 3\<rparr>) \<noteq> None" by simp
  from Active_success [of example_env example_job
      "example_job\<lparr>file := Some 3, status := JobActive, aStatus := Some JobActive,
                  eofCount := 0, lastActiveTime := 1000\<rparr>" "[Open ''/var/log/a.log'', FStat 3]"]
    Active_success [of replaced_env "example_job\<lparr>file := Some 3\<rparr>"]
    Active_example n f
  show ?thesis by simp
qed

text \<open>
  When the opened file has another identity than the Job, \<open>Active\<close> returns the error
  with the file stored in the Job and still open.
\<close>

lemma Active_uid_changed:
  assumes "file j = None" and "os_Open env (filename j) = Inr f"
    and "file_Stat env f = Inr fileInfo" and "uid j \<noteq> JobUid fileInfo"
  shows "Active env j =
     (Some (UidChanged (filename j) (uid j) (JobUid fileInfo)), j\<lparr>file := Some f\<rparr>,
      [Open (filename j), FStat f])"
  using assms by (simp add: Active_def Let_def Uid_def)

text \<open>
  C2. The claim is that a failed activation closes the file it opened and leaves the Job
  without a handle. The code does not: in the environment where the path now names
  inode 43, \<open>Active\<close> on the example Job (uid \<open>42-7\<close>) returns the uid-changed error,
  the Job holds descriptor 3, and no \<open>Close\<close> was made. The next \<open>Active\<close> then finds
  the file held and returns success without looking at the identity.
\<close>

theorem Active_uid_changed_keeps_handle:
  "Active replaced_env example_job =
     (Some (UidChanged ''/var/log/a.log'' ''42-7'' ''43-7''), example_job\<lparr>file := Some 3\<rparr>,
      [Open ''/var/log/a.log'', FStat 3])
   \<and> file (example_job\<lparr>file := Some 3\<rparr>) = Some 3
   \<and> Close (Some 3) \<notin> set [Open ''/var/log/a.log'', FStat 3]
   \<and> fst (Active replaced_env (example_job\<lparr>file := Some 3\<rparr>)) = None"
proof -
  have "file example_job = None" "filename example_job = ''/var/log/a.log''"
    "uid example_job = ''42-7''"
    by (simp_all add: example_job_eq)
  moreover have "os_Open replaced_env ''/var/log/a.log'' = Inr 3"
    "file_Stat replaced_env 3 = Inr (example_info\<lparr>Ino := 43\<rparr>)"
    by (simp_all add: replaced_env_def example_env_def)
  ultimately have "Active replaced_env example_job =
     (Some (UidChanged ''/var/log/a.log'' ''42-7'' ''43-7''), example_job\<lparr>file := Some 3\<rparr>,
      [Open ''/var/log/a.log'', FStat 3])"
    using Active_uid_changed [of example_job replaced_env 3 "example_info\<lparr>Ino := 43\<rparr>"]
    by (simp add: JobUid_replaced)
  moreover have "fst (Active replaced_env (example_job\<lparr>file := Some 3\<rparr>)) = None"
    by (simp add: Active_def)
  ultimately show ?thesis by simp
qed

subsection \<open>The fingerprint\<close>

lemma length_le_bytes: "length (le_bytes k v) = k"
  by (induction k arbitrary: v) simp_all

lemma length_md5_Sum: "length (md5_Sum msg) = 16"
  by (simp add: md5_Sum_def Let_def length_le_bytes split: prod.splits)

lemma length_Sprintf_x: "length (Sprintf_x bs) = 2 * length bs"
  by (induction bs) (simp_all add: Sprintf_x_def)

lemma hexdigit_below_16: "\<forall>d \<in> {0..<16}. hexdigit d \<in> set ''0123456789abcdef''"
  by code_simp

lemma hexdigit_hex: "d < 16 \<Longrightarrow> hexdigit d \<in> set ''0123456789abcdef''"
  using hexdigit_below_16 by (simp del: set_simps)

lemma of_char_below_256: "(of_char c :: nat) < 256"
proof -
  have "(of_char c :: nat) mod 256 = of_char c" by (rule of_char_mod_256)
  moreover have "(of_char c :: nat) mod 256 < 256" by simp
  ultimately show ?thesis by simp
qed

lemma Sprintf_x_hex: "set (Sprintf_x bs) \<subseteq> set ''0123456789abcdef''"
proof (induction bs)
  case Nil
  then show ?case by (simp add: Sprintf_x_def)
next
  case (Cons c bs)
  have "(of_char c :: nat) < 16 * 16"
    using of_char_below_256 [of c] by simp
  then have "(of_char c :: nat) div 16 < 16"
    by (rule less_mult_imp_div_less)
  then have hi: "hexdigit (of_char c div 16) \<in> set ''0123456789abcdef''"
    by (rule hexdigit_hex)
  have "(of_char c :: nat) mod 16 < 16" by simp
  then have lo: "hexdigit (of_char c mod 16) \<in> set ''0123456789abcdef''"
    by (rule hexdigit_hex)
  have "Sprintf_x (c # bs) =
      hexdigit (of_char c div 16) # hexdigit (of_char c mod 16) # Sprintf_x bs"
    by (simp add: Sprintf_x_def)
  with hi lo Cons.IH show ?case
    by (simp del: set_simps add: set_simps(2) [of "hexdigit (of_char c div 16)"]
        set_simps(2) [of "hexdigit (of_char c mod 16)"])
qed

lemma read_into_full:
  "file_Read env f n = (data, None) \<Longrightarrow> length data = n
   \<Longrightarrow> read_into env f (make_bytes n) = (data, n, None)"
  by (simp add: read_into_def make_bytes_def copy_def)

lemma GenerateIdentifier_cached:
  "identifier j \<noteq> [] \<Longrightarrow> GenerateIdentifier env j = Inr (None, j, [])"
  by (simp add: GenerateIdentifier_def)

lemma GenerateIdentifier_too_small:
  "identifier j = [] \<Longrightarrow> os_Stat env (filename j) = Inr st
   \<Longrightarrow> sint (Size st) < sint (FirstNBytesForIdentifier (config (task j)))
   \<Longrightarrow> GenerateIdentifier env j =
       Inr (Some (FileSizeSmaller (Size st) (FirstNBytesForIdentifier (config (task j)))), j,
            [Stat (filename j)])"
  by (simp add: GenerateIdentifier_def Let_def)

lemma GenerateIdentifier_full:
  assumes "identifier j = []" and "os_Stat env (filename j) = Inr st"
    and "0 \<le> sint (FirstNBytesForIdentifier (config (task j)))"
    and "sint (FirstNBytesForIdentifier (config (task j))) \<le> sint (Size st)"
    and "os_Open env (filename j) = Inr f"
    and "file_Read env f (nat (sint (FirstNBytesForIdentifier (config (task j))))) = (data, None)"
    and "length data = nat (sint (FirstNBytesForIdentifier (config (task j))))"
  shows "GenerateIdentifier env j =
       Inr (None, j\<lparr>identifier := Sprintf_x (md5_Sum data)\<rparr>,
            [Stat (filename j), Open (filename j),
             ReadN f (nat (sint (FirstNBytesForIdentifier (config (task j))))), Close (Some f)])"
proof -
  let ?n = "nat (sint (FirstNBytesForIdentifier (config (task j))))"
  from assms(6,7) have r: "read_into env f (make_bytes ?n) = (data, ?n, None)"
    by (rule read_into_full)
  have l: "length (make_bytes ?n) = ?n" by (simp add: make_bytes_def)
  from assms(1-5) r l show ?thesis
    by (simp add: GenerateIdentifier_def Let_def)
qed

text \<open>
  C6. On a Job whose identifier is still empty, with \<open>P\<close> the configured
  \<open>FirstNBytesForIdentifier\<close> and \<open>S\<close> the size that \<^verbatim>\<open>os.Stat\<close> reports:
  if \<open>S < P\<close>, \<open>GenerateIdentifier\<close> returns the file-size error and leaves the Job as it
  was; if \<open>0 \<le> P \<le> S\<close>, the file opens and the read delivers \<open>P\<close> bytes without error,
  it returns no error, closes the file and stores the hexadecimal MD5 digest of these
  bytes, a string of 32 hexadecimal digits. Once an identifier is stored, a call in any
  environment returns no error, makes no system call and leaves the Job as it is.
\<close>

theorem GenerateIdentifier_threshold:
  "(identifier j = [] \<and> os_Stat env (filename j) = Inr st
      \<and> sint (Size st) < sint (FirstNBytesForIdentifier (config (task j)))
     \<longrightarrow> GenerateIdentifier env j =
           Inr (Some (FileSizeSmaller (Size st) (FirstNBytesForIdentifier (config (task j)))),
                j, [Stat (filename j)]))
   \<and> (identifier j = [] \<and> os_Stat env (filename j) = Inr st
      \<and> 0 \<le> sint (FirstNBytesForIdentifier (config (task j)))
      \<and> sint (FirstNBytesForIdentifier (config (task j))) \<le> sint (Size st)
      \<and> os_Open env (filename j) = Inr f
      \<and> file_Read env f (nat (sint (FirstNBytesForIdentifier (config (task j))))) = (data, None)
      \<and> length data = nat (sint (FirstNBytesForIdentifier (config (task j))))
     \<longrightarrow> GenerateIdentifier env j =
           Inr (None, j\<lparr>identifier := Sprintf_x (md5_Sum data)\<rparr>,
                [Stat (filename j), Open (filename j),
                 ReadN f (nat (sint (FirstNBytesForIdentifier (config (task j))))),
                 Close (Some f)])
         \<and> length (Sprintf_x (md5_Sum data)) = 32
         \<and> set (Sprintf_x (md5_Sum data)) \<subseteq> set ''0123456789abcdef''
         \<and> GenerateIdentifier env' (j\<lparr>identifier := Sprintf_x (md5_Sum data)\<rparr>) =
           Inr (None, j\<lparr>identifier := Sprintf_x (md5_Sum data)\<rparr>, []))
   \<and> (identifier j \<noteq> [] \<longrightarrow> GenerateIdentifier env' j = Inr (None, j, []))"
proof (intro conjI impI)
  assume "identifier j = [] \<and> os_Stat env (filename j) = Inr st
      \<and> sint (Size st) < sint (FirstNBytesForIdentifier (config (task j)))"
  then show "GenerateIdentifier env j =
           Inr (Some (FileSizeSmaller (Size st) (FirstNBytesForIdentifier (config (task j)))),
                j, [Stat (filename j)])"
    using GenerateIdentifier_too_small [of j env st] by blast
next
  assume "identifier j = [] \<and> os_Stat env (filename j) = Inr st
      \<and> 0 \<le> sint (FirstNBytesForIdentifier (config (task j)))
      \<and> sint (FirstNBytesForIdentifier (config (task j))) \<le> sint (Size st)
      \<and> os_Open env (filename j) = Inr f
      \<and> file_Read env f (nat (sint (FirstNBytesForIdentifier (config (task j))))) = (data, None)
      \<and> length data = nat (sint (FirstNBytesForIdentifier (config (task j))))"
  then show "GenerateIdentifier env j =
           Inr (None, j\<lparr>identifier := Sprintf_x (md5_Sum data)\<rparr>,
                [Stat (filename j), Open (filename j),
                 ReadN f (nat (sint (FirstNBytesForIdentifier (config (task j))))),
                 Close (Some f)])"
    using GenerateIdentifier_full [of j env st f data] by blast
next
  show len: "length (Sprintf_x (md5_Sum data)) = 32"
    by (simp add: length_Sprintf_x length_md5_Sum)
  show "set (Sprintf_x (md5_Sum data)) \<subseteq> set ''0123456789abcdef''"
    by (rule Sprintf_x_hex)
  from len have "Sprintf_x (md5_Sum data) \<noteq> []" by auto
  then show "GenerateIdentifier env' (j\<lparr>identifier := Sprintf_x (md5_Sum data)\<rparr>) =
           Inr (None, j\<lparr>identifier := Sprintf_x (md5_Sum data)\<rparr>, [])"
    by (intro GenerateIdentifier_cached) simp
next
  assume "identifier j \<noteq> []"
  then show "GenerateIdentifier env' j = Inr (None, j, [])"
    by (rule GenerateIdentifier_cached)
qed

theorem GenerateIdentifier_threshold_witness:
  "identifier example_job = []
   \<and> sint (2 :: int64) < sint (FirstNBytesForIdentifier (config (task example_job)))
   \<and> GenerateIdentifier (example_env\<lparr>os_Stat := (\<lambda>path. Inr (example_info\<lparr>Size := 2\<rparr>))\<rparr>)
        example_job =
       Inr (Some (FileSizeSmaller 2 4), example_job, [Stat ''/var/log/a.log''])
   \<and> 0 \<le> sint (FirstNBytesForIdentifier (config (task example_job)))
   \<and> sint (FirstNBytesForIdentifier (config (task example_job))) \<le> sint (Size example_info)
   \<and> file_Read example_env 3 4 = (''firs'', None)
   \<and> GenerateIdentifier example_env example_job =
       Inr (None, example_job\<lparr>identifier := Sprintf_x (md5_Sum ''firs'')\<rparr>,
            [Stat ''/var/log/a.log'', Open ''/var/log/a.log'', ReadN 3 4, Close (Some 3)])
   \<and> length (Sprintf_x (md5_Sum ''firs'')) = 32
   \<and> GenerateIdentifier replaced_env (example_job\<lparr>identifier := Sprintf_x (md5_Sum ''firs'')\<rparr>) =
       Inr (None, example_job\<lparr>identifier := Sprintf_x (md5_Sum ''firs'')\<rparr>, [])"
proof -
  let ?small = "example_env\<lparr>os_Stat := (\<lambda>path. Inr (example_info\<lparr>Size := 2\<rparr>))\<rparr>"
  have j: "identifier example_job = []" "filename example_job = ''/var/log/a.log''"
    "FirstNBytesForIdentifier (config (task example_job)) = 4"
    by (simp_all add: example_job_eq example_task_def)
  have small: "os_Stat ?small ''/var/log/a.log'' = Inr (example_info\<lparr>Size := 2\<rparr>)"
    by simp
  have env: "os_Stat example_env ''/var/log/a.log'' = Inr example_info"
    "os_Open example_env ''/var/log/a.log'' = Inr 3"
    "file_Read example_env 3 4 = (''firs'', None)"
    by (simp_all add: example_env_def)
  have sz: "Size example_info = 20"
    by (simp add: example_info_def)
  from GenerateIdentifier_threshold [of example_job ?small "example_info\<lparr>Size := 2\<rparr>"]
    j small
  have a: "GenerateIdentifier ?small example_job =
       Inr (Some (FileSizeSmaller 2 4), example_job, [Stat ''/var/log/a.log''])"
    by simp
  from GenerateIdentifier_threshold [of example_job example_env example_info 3 "''firs''"
      replaced_env] j env sz
  have b: "GenerateIdentifier example_env example_job =
       Inr (None, example_job\<lparr>identifier := Sprintf_x (md5_Sum ''firs'')\<rparr>,
            [Stat ''/var/log/a.log'', Open ''/var/log/a.log'', ReadN 3 4, Close (Some 3)])
     \<and> length (Sprintf_x (md5_Sum ''firs'')) = 32
     \<and> GenerateIdentifier replaced_env (example_job\<lparr>identifier := Sprintf_x (md5_Sum ''firs'')\<rparr>) =
       Inr (None, example_job\<lparr>identifier := Sprintf_x (md5_Sum ''firs'')\<rparr>, [])"
    by simp
  from a b j env sz show ?thesis
    by simp
qed

end
